theory Spec2Isabelle
  imports Main
begin

section \<open>JavaScript dates\<close>

text \<open>
  A JavaScript \<open>Date\<close> holds a time value, the number of milliseconds since the epoch,
  or is the Invalid Date. A time value is valid up to 8.64e15 milliseconds on either side
  of the epoch (ECMAScript \<open>TimeClip\<close>); every integer of that range is an exact double,
  so the arithmetic below is integer arithmetic.
\<close>

datatype Date = Date (getTime: int) | Invalid_Date

datatype error = RangeError | TypeError | PostgresError

definition msPerDay :: int where
  "msPerDay = 86400000"

definition maxTime :: int where
  "maxTime = 8640000000000000"

definition TimeClip :: "int \<Rightarrow> Date" where
  "TimeClip t = (if \<bar>t\<bar> \<le> maxTime then Date t else Invalid_Date)"

text \<open>
  The time zone of the server is the function \<open>LocalTZA(t, isUTC)\<close> of ECMAScript: the
  offset of local time from UTC in milliseconds, at the UTC time value \<open>t\<close> when
  \<open>isUTC\<close> is true and at the local time value \<open>t\<close> when it is false. It is a
  parameter of every operation that computes with calendar days.
\<close>

type_synonym zone = "int \<Rightarrow> bool \<Rightarrow> int"

definition LocalTime :: "zone \<Rightarrow> int \<Rightarrow> int" where
  "LocalTime LocalTZA t = t + LocalTZA t True"

definition UTC :: "zone \<Rightarrow> int \<Rightarrow> int" where
  "UTC LocalTZA t = t - LocalTZA t False"

text \<open>
  \<open>x.setDate(x.getDate() + n)\<close>: the time value is taken to local time, the day is
  moved by \<open>n\<close> calendar days with the time within the day kept (\<open>MakeDay\<close> of the
  year, the month and the day of the month plus \<open>n\<close> is the day number plus \<open>n\<close>),
  the result is taken back to UTC and clipped to the valid range. On the Invalid Date
  \<open>getDate()\<close> is NaN and the date stays invalid.
\<close>

definition addDays :: "zone \<Rightarrow> int \<Rightarrow> int \<Rightarrow> int" where
  "addDays z t n = UTC z (LocalTime z t + n * msPerDay)"

definition setDate_plus :: "zone \<Rightarrow> Date \<Rightarrow> int \<Rightarrow> Date" where
  "setDate_plus z x n =
     (case x of Invalid_Date \<Rightarrow> Invalid_Date
      | Date t \<Rightarrow> TimeClip (addDays z t n))"

text \<open>
  \<open>x.toISOString()\<close> throws a RangeError on the Invalid Date; on a valid date it renders
  the instant, which is all the model keeps of the string.
\<close>

definition toISOString :: "Date \<Rightarrow> error + int" where
  "toISOString x = (case x of Invalid_Date \<Rightarrow> Inl RangeError | Date t \<Rightarrow> Inr t)"

section \<open>Parameters of a statement\<close>

text \<open>
  The timestamp columns are declared \<open>timestamp(...)\<close> (\<open>migrate.js\<close>), in the mode
  that maps a column to a \<open>Date\<close>. The query builder encodes a value bound to such a
  column with \<open>value.toISOString()\<close>: a \<open>Date\<close> gives its text; a string has no such
  method and the call throws a TypeError while the statement is built. \<open>String_param t\<close>
  is the ISO string of the instant \<open>t\<close>.
\<close>

datatype param = Date_param Date | String_param int

definition mapToDriverValue :: "param \<Rightarrow> error + int" where
  "mapToDriverValue v =
     (case v of Date_param d \<Rightarrow> toISOString d | String_param t \<Rightarrow> Inl TypeError)"

text \<open>
  PostgreSQL parses the text of a timestamp parameter when the statement is bound, before
  any row is looked at. \<open>toISOString\<close> writes the years 0000 to 9999 with four digits
  and every other year with a sign and six digits, which PostgreSQL does not read as a
  timestamp, and PostgreSQL has no year 0000. So the instants it accepts are those from
  0001-01-01T00:00:00.000Z to 9999-12-31T23:59:59.999Z. A parameter of an \<open>INTEGER\<close>
  column must be a 32-bit integer. Otherwise the statement fails and writes nothing.
\<close>

definition pg_timestamp_ok :: "int \<Rightarrow> bool" where
  "pg_timestamp_ok t = (- 62135596800000 \<le> t \<and> t \<le> 253402300799999)"

definition pg_integer_ok :: "int \<Rightarrow> bool" where
  "pg_integer_ok n = (- 2147483648 \<le> n \<and> n \<le> 2147483647)"

section \<open>The merchants table\<close>

text \<open>
  One row of the table \<open>merchants\<close> (\<open>migrate.js\<close>): the columns of the access
  lifecycle. \<open>None\<close> is SQL NULL in a nullable column; timestamps are time values in
  milliseconds. The columns that no operation below reads or writes (name, password,
  working hours, fee policies, ...) are the extension of the record, so every definition
  and theorem is about rows with any further columns.
\<close>

record merchant =
  mid :: string
  email :: string
  status :: string
  accessStartDate :: "int option"
  accessEndDate :: "int option"
  accessDurationDays :: "int option"
  lastPaymentDate :: "int option"
  nextPaymentDue :: "int option"
  monthlyFee :: "int option"
  paymentStatus :: string
  planStatus :: string
  updatedAt :: int

text \<open>
  \<open>db.update(merchants).set(f).where(eq(merchants.id, k))\<close>, the rows it returns with
  \<open>.returning()\<close>, \<open>db.select().from(merchants).where(eq(merchants.id, k))\<close>, and
  \<open>rows[0]\<close>, which is undefined on the empty array.
\<close>

definition db_update ::
  "('a merchant_scheme \<Rightarrow> 'a merchant_scheme) \<Rightarrow> string \<Rightarrow> 'a merchant_scheme list
   \<Rightarrow> 'a merchant_scheme list" where
  "db_update f k tbl = map (\<lambda>r. if mid r = k then f r else r) tbl"

definition db_select_id :: "string \<Rightarrow> 'a merchant_scheme list \<Rightarrow> 'a merchant_scheme list" where
  "db_select_id k tbl = filter (\<lambda>r. mid r = k) tbl"

definition rows0 :: "'r list \<Rightarrow> 'r option" where
  "rows0 rows = (case rows of [] \<Rightarrow> None | r # _ \<Rightarrow> Some r)"

definition getMerchant :: "string \<Rightarrow> 'a merchant_scheme list \<Rightarrow> 'a merchant_scheme option" where
  "getMerchant k tbl = rows0 (db_select_id k tbl)"

section \<open>PostgreSQLStorage: the access lifecycle\<close>

text \<open>
  Every operation takes the reading of the clock (\<open>new Date()\<close>) and the table, and
  returns its result with the table after it. \<open>Inl\<close> is a thrown error (the \<open>catch\<close>
  blocks log and rethrow), \<open>Inr None\<close> is the \<open>null\<close> or \<open>undefined\<close> result.
  The lazy \<open>initialize()\<close> reads the catalogue and sets a flag; it does not touch the
  table and is left out, as are the log lines whose arguments cannot throw.
\<close>

subsection \<open>getMerchantsAccessStatus\<close>

record access_status =
  activeAccess :: nat
  expiredAccess :: nat
  paymentPending :: nat
  trialUsers :: nat
  vipUsers :: nat

definition activeAccess_filter :: "int \<Rightarrow> 'a merchant_scheme \<Rightarrow> bool" where
  \<comment> \<open>\<open>m.status === "active" && (!m.accessEndDate || new Date(m.accessEndDate) > now)\<close>\<close>
  "activeAccess_filter now m =
     (status m = ''active'' \<and>
      (case accessEndDate m of None \<Rightarrow> True | Some e \<Rightarrow> now < e))"

definition expiredAccess_filter :: "int \<Rightarrow> 'a merchant_scheme \<Rightarrow> bool" where
  \<comment> \<open>\<open>m.accessEndDate && new Date(m.accessEndDate) <= now\<close>\<close>
  "expiredAccess_filter now m =
     (case accessEndDate m of None \<Rightarrow> False | Some e \<Rightarrow> e \<le> now)"

definition getMerchantsAccessStatus :: "int \<Rightarrow> 'a merchant_scheme list \<Rightarrow> access_status" where
  "getMerchantsAccessStatus now allMerchants =
     \<lparr> activeAccess = length (filter (activeAccess_filter now) allMerchants),
       expiredAccess = length (filter (expiredAccess_filter now) allMerchants),
       paymentPending = length (filter (\<lambda>m. status m = ''payment_pending'') allMerchants),
       trialUsers = length (filter (\<lambda>m. paymentStatus m = ''trial'') allMerchants),
       vipUsers = length (filter (\<lambda>m. paymentStatus m = ''paid'' \<and> planStatus m = ''vip'')
                    allMerchants) \<rparr>"

subsection \<open>processExpiredAccess\<close>

text \<open>
  The selection is written \<open>lte(merchants.accessEndDate, now.toISOString())\<close>: the
  value bound to the timestamp column is a string, so encoding it throws the TypeError
  before the SELECT is sent, on every table. The selection and the loop that would follow
  are kept as the source has them: \<open>status = 'active' AND access_end_date <= now\<close>,
  where a NULL end date compares to NULL and the row is not selected, and one update for
  each selected row, which reads the clock again for \<open>updatedAt\<close> (\<open>clk n\<close> is the
  \<open>n\<close>-th reading of the clock during the call).
\<close>

definition expired_where :: "int \<Rightarrow> 'a merchant_scheme \<Rightarrow> bool" where
  "expired_where now m =
     (status m = ''active'' \<and>
      (case accessEndDate m of None \<Rightarrow> False | Some e \<Rightarrow> e \<le> now))"

fun expired_loop ::
  "(nat \<Rightarrow> int) \<Rightarrow> nat \<Rightarrow> 'a merchant_scheme list \<Rightarrow> 'a merchant_scheme list
   \<Rightarrow> 'a merchant_scheme list" where
  "expired_loop clk n [] tbl = tbl"
| "expired_loop clk n (m # ms) tbl =
     expired_loop clk (Suc n) ms
       (db_update (\<lambda>r. r\<lparr>status := ''payment_pending'', updatedAt := clk n\<rparr>) (mid m) tbl)"

definition processExpiredAccess ::
  "(nat \<Rightarrow> int) \<Rightarrow> 'a merchant_scheme list
   \<Rightarrow> (error + nat) \<times> 'a merchant_scheme list" where
  "processExpiredAccess clk tbl =
     (let now = clk 0
      in case mapToDriverValue (String_param now) of
           Inl err \<Rightarrow> (Inl err, tbl)
         | Inr t \<Rightarrow>
            (let expiredMerchants = filter (expired_where t) tbl
             in (Inr (length expiredMerchants), expired_loop clk 1 expiredMerchants tbl)))"

definition getMerchantsWithExpiredAccess ::
  "int \<Rightarrow> 'a merchant_scheme list \<Rightarrow> error + 'a merchant_scheme list" where
  "getMerchantsWithExpiredAccess now tbl =
     (case mapToDriverValue (String_param now) of
        Inl err \<Rightarrow> Inl err
      | Inr t \<Rightarrow> Inr (filter (expired_where t) tbl))"

subsection \<open>grantMerchantAccess\<close>

text \<open>
  The dates are computed first and rendered with \<open>toISOString\<close> for the log, which throws
  on an invalid date before anything is written. \<open>fee\<close> is the optional argument
  \<open>monthlyFee?: number\<close>, \<open>None\<close> when it is not given (\<open>undefined\<close>). The
  update is one statement. Its parameters are the three dates (now is bound three times),
  the number of days and, when given, the fee; if PostgreSQL refuses one of them the
  statement fails, whether or not a row has the id. Otherwise \<open>rows[0]\<close> of the rows it
  returns is the result, \<open>null\<close> when there is none.
\<close>

definition grant_updates ::
  "int \<Rightarrow> int \<Rightarrow> int \<Rightarrow> int \<Rightarrow> int option \<Rightarrow> 'a merchant_scheme \<Rightarrow> 'a merchant_scheme" where
  "grant_updates now endDate durationDays paymentDue fee r =
     (let r1 = r\<lparr> status := ''active'',
                  accessStartDate := Some now,
                  accessEndDate := Some endDate,
                  accessDurationDays := Some durationDays,
                  lastPaymentDate := Some now,
                  nextPaymentDue := Some paymentDue,
                  paymentStatus := ''paid'',
                  updatedAt := now \<rparr>
      in case fee of None \<Rightarrow> r1 | Some f \<Rightarrow> r1\<lparr>monthlyFee := Some f\<rparr>)"

definition grant_params_ok :: "int \<Rightarrow> int \<Rightarrow> int \<Rightarrow> int \<Rightarrow> int option \<Rightarrow> bool" where
  "grant_params_ok now endDate durationDays paymentDue fee =
     (pg_timestamp_ok now \<and> pg_timestamp_ok endDate \<and> pg_timestamp_ok paymentDue
      \<and> pg_integer_ok durationDays
      \<and> (case fee of None \<Rightarrow> True | Some f \<Rightarrow> pg_integer_ok f))"

definition grantMerchantAccess ::
  "zone \<Rightarrow> int \<Rightarrow> string \<Rightarrow> int \<Rightarrow> int option \<Rightarrow> 'a merchant_scheme list
   \<Rightarrow> (error + 'a merchant_scheme option) \<times> 'a merchant_scheme list" where
  "grantMerchantAccess z now merchantId durationDays fee tbl =
     (let endDate = setDate_plus z (Date now) durationDays;
          paymentDue = setDate_plus z endDate durationDays
      in case toISOString endDate of
           Inl err \<Rightarrow> (Inl err, tbl)
         | Inr e \<Rightarrow>
            (case toISOString paymentDue of
               Inl err \<Rightarrow> (Inl err, tbl)
             | Inr p \<Rightarrow>
                if grant_params_ok now e durationDays p fee then
                  (let tbl' = db_update (grant_updates now e durationDays p fee) merchantId tbl
                   in (Inr (rows0 (db_select_id merchantId tbl')), tbl'))
                else (Inl PostgresError, tbl)))"

subsection \<open>suspendMerchantAccess\<close>

definition suspendMerchantAccess ::
  "int \<Rightarrow> string \<Rightarrow> 'a merchant_scheme list
   \<Rightarrow> 'a merchant_scheme option \<times> 'a merchant_scheme list" where
  "suspendMerchantAccess now merchantId tbl =
     (let tbl' = db_update (\<lambda>r. r\<lparr>status := ''payment_pending'', updatedAt := now\<rparr>)
                   merchantId tbl
      in (getMerchant merchantId tbl', tbl'))"

subsection \<open>renewMerchantAccess\<close>

text \<open>
  \<open>merchant.accessDurationDays || 30\<close> takes 30 for NULL and for 0, the falsy numbers of
  an integer column. \<open>merchant.accessStartDate || now\<close> keeps any stored date: a Date
  object is truthy. A stored timestamp is one that PostgreSQL accepted and is read as a
  valid date, so of the four dates that the log renders with \<open>toISOString\<close> only the two
  computed with \<open>setDate\<close> can be invalid. The update binds the start date, the new end
  date, now and the next payment date; if PostgreSQL refuses one of them the statement
  fails.
\<close>

definition renew_duration :: "'a merchant_scheme \<Rightarrow> int" where
  "renew_duration merchant =
     (case accessDurationDays merchant of
        None \<Rightarrow> 30
      | Some d \<Rightarrow> if d = 0 then 30 else d)"

definition renew_baseDate :: "int \<Rightarrow> 'a merchant_scheme \<Rightarrow> int" where
  "renew_baseDate now merchant =
     (let currentEndDate = (case accessEndDate merchant of Some e \<Rightarrow> e | None \<Rightarrow> now)
      in if currentEndDate > now then currentEndDate else now)"

definition renew_updates ::
  "int \<Rightarrow> 'a merchant_scheme \<Rightarrow> int \<Rightarrow> int \<Rightarrow> 'a merchant_scheme \<Rightarrow> 'a merchant_scheme" where
  "renew_updates now merchant newEnd newDue r =
     r\<lparr> status := ''active'',
        accessStartDate :=
          (case accessStartDate merchant of Some s \<Rightarrow> Some s | None \<Rightarrow> Some now),
        accessEndDate := Some newEnd,
        lastPaymentDate := Some now,
        nextPaymentDue := Some newDue,
        paymentStatus := ''paid'',
        updatedAt := now \<rparr>"

definition renew_params_ok :: "int \<Rightarrow> 'a merchant_scheme \<Rightarrow> int \<Rightarrow> int \<Rightarrow> bool" where
  "renew_params_ok now merchant newEnd newDue =
     (pg_timestamp_ok (case accessStartDate merchant of Some s \<Rightarrow> s | None \<Rightarrow> now)
      \<and> pg_timestamp_ok newEnd \<and> pg_timestamp_ok now \<and> pg_timestamp_ok newDue)"

definition renewMerchantAccess ::
  "zone \<Rightarrow> int \<Rightarrow> string \<Rightarrow> 'a merchant_scheme list
   \<Rightarrow> (error + 'a merchant_scheme option) \<times> 'a merchant_scheme list" where
  "renewMerchantAccess z now merchantId tbl =
     (case rows0 (db_select_id merchantId tbl) of
        None \<Rightarrow> (Inr None, tbl)
      | Some merchant \<Rightarrow>
         (let baseDate = renew_baseDate now merchant;
              durationDays = renew_duration merchant;
              newEndDate = setDate_plus z (Date baseDate) durationDays;
              newPaymentDue = setDate_plus z newEndDate durationDays
          in case toISOString newEndDate of
               Inl err \<Rightarrow> (Inl err, tbl)
             | Inr e \<Rightarrow>
                (case toISOString newPaymentDue of
                   Inl err \<Rightarrow> (Inl err, tbl)
                 | Inr p \<Rightarrow>
                    if renew_params_ok now merchant e p then
                      (let tbl' = db_update (renew_updates now merchant e p) merchantId tbl
                       in (Inr (rows0 (db_select_id merchantId tbl')), tbl'))
                    else (Inl PostgresError, tbl))))"

subsection \<open>updateMerchantAccessSettings\<close>

text \<open>
  \<open>settings\<close> is an object of any shape that is spread into the update. Of its keys the
  model keeps the lifecycle columns: \<open>None\<close> is a key that is not given, \<open>Some v\<close> a key
  given with the value \<open>v\<close> (for a nullable column \<open>Some None\<close> writes NULL).
\<close>

record settings =
  set_status :: "string option"
  set_paymentStatus :: "string option"
  set_accessStartDate :: "int option option"
  set_accessEndDate :: "int option option"
  set_accessDurationDays :: "int option option"
  set_lastPaymentDate :: "int option option"
  set_nextPaymentDue :: "int option option"
  set_monthlyFee :: "int option option"

definition given :: "'v option \<Rightarrow> 'v \<Rightarrow> 'v" where
  "given key old = (case key of None \<Rightarrow> old | Some v \<Rightarrow> v)"

definition settings_updates :: "int \<Rightarrow> settings \<Rightarrow> 'a merchant_scheme \<Rightarrow> 'a merchant_scheme" where
  "settings_updates now s r =
     r\<lparr> status := given (set_status s) (status r),
        paymentStatus := given (set_paymentStatus s) (paymentStatus r),
        accessStartDate := given (set_accessStartDate s) (accessStartDate r),
        accessEndDate := given (set_accessEndDate s) (accessEndDate r),
        accessDurationDays := given (set_accessDurationDays s) (accessDurationDays r),
        lastPaymentDate := given (set_lastPaymentDate s) (lastPaymentDate r),
        nextPaymentDue := given (set_nextPaymentDue s) (nextPaymentDue r),
        monthlyFee := given (set_monthlyFee s) (monthlyFee r),
        updatedAt := now \<rparr>"

definition updateMerchantAccessSettings ::
  "int \<Rightarrow> string \<Rightarrow> settings \<Rightarrow> 'a merchant_scheme list
   \<Rightarrow> 'a merchant_scheme option \<times> 'a merchant_scheme list" where
  "updateMerchantAccessSettings now merchantId s tbl =
     (let tbl' = db_update (settings_updates now s) merchantId tbl
      in (rows0 (db_select_id merchantId tbl'), tbl'))"

section \<open>SQLiteStorage and the storage switch\<close>

definition SQLite_processExpiredAccess ::
  "'a merchant_scheme list \<Rightarrow> (error + nat) \<times> 'a merchant_scheme list" where
  \<comment> \<open>\<open>return 0\<close>: no statement is issued\<close>
  "SQLite_processExpiredAccess tbl = (Inr 0, tbl)"

definition storage_processExpiredAccess ::
  "bool \<Rightarrow> (nat \<Rightarrow> int) \<Rightarrow> 'a merchant_scheme list
   \<Rightarrow> (error + nat) \<times> 'a merchant_scheme list" where
  \<comment> \<open>\<open>storage.ts\<close>: \<open>isProduction\<close> selects the backend\<close>
  "storage_processExpiredAccess isProduction clk tbl =
     (if isProduction then processExpiredAccess clk tbl
      else SQLite_processExpiredAccess tbl)"

section \<open>The payment status check of the signup form\<close>

text \<open>
  \<open>merchant-signup-form.tsx\<close>. The component state \<open>paymentStatus\<close> is one of four
  literals. The model keeps, besides it, whether the interval timer is still set, the
  toasts shown, whether the registration was scheduled, and how many status requests
  were sent. A status request answers with the \<open>status\<close> string of the gateway, or it
  throws (network or JSON error). The spinner flag \<open>isCheckingPayment\<close>, which every
  request sets and resets, is left out.
\<close>

datatype ui_status = Pending | Processing | Approved | Failed

datatype toast = Erro | Pagamento_Aprovado | Pagamento_nao_aprovado | Tempo_Esgotado

datatype reply = Reply string | Throws

record form =
  ui_paymentStatus :: ui_status
  checkInterval_set :: bool
  toasts :: "toast list"
  signup_scheduled :: bool
  requests :: nat

text \<open>
  The callback of \<open>setInterval\<close>: one status request. \<open>approved\<close>, \<open>rejected\<close> and
  \<open>cancelled\<close> clear the interval; any other status changes nothing; an error is caught
  and logged.
\<close>

definition interval_callback :: "reply \<Rightarrow> form \<Rightarrow> form" where
  "interval_callback result st =
     (let st1 = st\<lparr>requests := Suc (requests st)\<rparr>
      in case result of
           Throws \<Rightarrow> st1
         | Reply s \<Rightarrow>
            if s = ''approved'' then
              st1\<lparr> ui_paymentStatus := Approved, checkInterval_set := False,
                   toasts := toasts st1 @ [Pagamento_Aprovado], signup_scheduled := True \<rparr>
            else if s = ''rejected'' \<or> s = ''cancelled'' then
              st1\<lparr> ui_paymentStatus := Failed, checkInterval_set := False,
                   toasts := toasts st1 @ [Pagamento_nao_aprovado] \<rparr>
            else st1)"

text \<open>
  The callback of \<open>setTimeout\<close>. It compares the \<open>paymentStatus\<close> of its closure: the
  constant of the render in which \<open>startPaymentStatusCheck\<close> was created, not the state
  of the component when the timer fires.
\<close>

definition timeout_callback :: "ui_status \<Rightarrow> form \<Rightarrow> form" where
  "timeout_callback closure_paymentStatus st =
     (let st1 = st\<lparr>checkInterval_set := False\<rparr>
      in if closure_paymentStatus = Processing then
           st1\<lparr> ui_paymentStatus := Failed, toasts := toasts st1 @ [Tempo_Esgotado] \<rparr>
         else st1)"

text \<open>
  The interval fires every 3000 ms and the timeout after \<open>30 * 60 * 1000\<close> ms, so at most
  600 ticks come before the timeout (the tick that is due together with the timeout is
  counted in). \<open>gateway k\<close> is the answer to the request of tick \<open>k\<close>; a request is
  taken to be answered before the next tick. A cleared interval fires no more.
\<close>

definition interval_ms :: nat where
  "interval_ms = 3000"

definition ceiling_ms :: nat where
  "ceiling_ms = 30 * 60 * 1000"

fun interval_ticks :: "(nat \<Rightarrow> reply) \<Rightarrow> nat \<Rightarrow> nat \<Rightarrow> form \<Rightarrow> form" where
  "interval_ticks gateway k 0 st = st"
| "interval_ticks gateway k (Suc n) st =
     (if checkInterval_set st
      then interval_ticks gateway (Suc k) n (interval_callback (gateway k) st)
      else st)"

definition startPaymentStatusCheck :: "ui_status \<Rightarrow> (nat \<Rightarrow> reply) \<Rightarrow> form \<Rightarrow> form" where
  "startPaymentStatusCheck closure_paymentStatus gateway st =
     timeout_callback closure_paymentStatus
       (interval_ticks gateway 1 (ceiling_ms div interval_ms) (st\<lparr>checkInterval_set := True\<rparr>))"

text \<open>
  \<open>createPixPayment\<close> after the answer of \<open>/api/payment/create-pix\<close>: on success it
  sets \<open>paymentStatus\<close> to \<open>processing\<close> and starts the check. The check it starts is
  the one of its own render, whose \<open>paymentStatus\<close> is the state before that update.
\<close>

definition createPixPayment :: "bool \<Rightarrow> (nat \<Rightarrow> reply) \<Rightarrow> form \<Rightarrow> form" where
  "createPixPayment success gateway st =
     (if success then
        startPaymentStatusCheck (ui_paymentStatus st) gateway
          (st\<lparr>ui_paymentStatus := Processing\<rparr>)
      else st\<lparr>ui_paymentStatus := Failed, toasts := toasts st @ [Erro]\<rparr>)"

definition retry_presented :: "form \<Rightarrow> bool" where
  \<comment> \<open>the button \<open>Tentar Novamente\<close> is rendered under \<open>paymentStatus === 'failed'\<close>\<close>
  "retry_presented st = (ui_paymentStatus st = Failed)"

definition initial_form :: form where
  \<comment> \<open>the \<open>useState\<close> defaults\<close>
  "initial_form = \<lparr> ui_paymentStatus = Pending, checkInterval_set = False, toasts = [],
                    signup_scheduled = False, requests = 0 \<rparr>"

section \<open>Properties stated about rows, and sample rows\<close>

text \<open>
  The access window of a row is in order when its end date, if there is one, is not before
  its start date, if there is one.
\<close>

definition window_ok :: "'a merchant_scheme \<Rightarrow> bool" where
  "window_ok r =
     (case accessStartDate r of
        None \<Rightarrow> True
      | Some s \<Rightarrow> (case accessEndDate r of None \<Rightarrow> True | Some e \<Rightarrow> s \<le> e))"

text \<open>
  A zone has a fixed offset \<open>c\<close> when \<open>LocalTZA\<close> is \<open>c\<close> throughout (UTC is the
  zone of offset 0). The offset of a zone never changes by more than a day when any two
  of its offsets differ by at most 86400000 ms; every zone of fixed offset is one.
\<close>

definition fixed_offset :: "zone \<Rightarrow> int \<Rightarrow> bool" where
  "fixed_offset z c = (\<forall>t b. z t b = c)"

definition zone_ok :: "zone \<Rightarrow> bool" where
  "zone_ok z = (\<forall>t s. \<bar>z t True - z s False\<bar> \<le> msPerDay)"

definition utc_zone :: zone where
  "utc_zone t b = 0"

text \<open>
  A zone with one change of offset, for lemmas on daylight-saving time: the clocks go
  forward by an hour at the time value 1790400000000, between \<open>t2026\<close> and ten days
  later.
\<close>

definition dst_zone :: zone where
  "dst_zone t b = (if t < 1790400000000 then 0 else 3600000)"

text \<open>
  \<open>swept r r'\<close>: the row \<open>r'\<close> is the row \<open>r\<close> with \<open>status\<close> set to
  \<open>payment_pending\<close> and some \<open>updatedAt\<close>; every other column is the same.
\<close>

definition swept :: "'a merchant_scheme \<Rightarrow> 'a merchant_scheme \<Rightarrow> bool" where
  "swept r r' = (r' = r\<lparr>status := ''payment_pending'', updatedAt := updatedAt r'\<rparr>)"

text \<open>
  A row as \<open>createMerchant\<close> and the column defaults leave it, and a clock reading of
  the year 2026.
\<close>

definition new_merchant :: merchant where
  "new_merchant =
     \<lparr> mid = ''m1'', email = ''salon@example.com'', status = ''pending'',
       accessStartDate = None, accessEndDate = None, accessDurationDays = Some 30,
       lastPaymentDate = None, nextPaymentDue = None, monthlyFee = Some 5000,
       paymentStatus = ''pending'', planStatus = ''free'', updatedAt = 0 \<rparr>"

definition t2026 :: int where
  "t2026 = 1790000000000"

text \<open>A merchant with a paid window that ends ten days after \<open>t2026\<close>.\<close>

definition active_merchant :: merchant where
  "active_merchant =
     new_merchant\<lparr> status := ''active'', paymentStatus := ''paid'',
       accessStartDate := Some 1789000000000, accessEndDate := Some 1790864000000 \<rparr>"

text \<open>
  A clock that advances by one millisecond at every reading, and a table of two active
  merchants: the window of the first ends ten days after \<open>t2026\<close>, the window of the
  second months later.
\<close>

definition clock_from :: "int \<Rightarrow> nat \<Rightarrow> int" where
  "clock_from t n = t + int n"

definition two_merchants :: "merchant list" where
  "two_merchants =
     [active_merchant,
      new_merchant\<lparr> mid := ''m2'', status := ''active'', accessEndDate := Some 1800000000000 \<rparr>]"

text \<open>
  Two settings objects of an administrator: one moves the end date back to a day before
  the start date of \<open>active_merchant\<close>, the other changes the monthly fee only.
\<close>

definition end_before_start :: settings where
  "end_before_start =
     \<lparr> set_status = None, set_paymentStatus = None, set_accessStartDate = None,
       set_accessEndDate = Some (Some 1788000000000), set_accessDurationDays = None,
       set_lastPaymentDate = None, set_nextPaymentDue = None, set_monthlyFee = None \<rparr>"

definition fee_only :: settings where
  "fee_only =
     \<lparr> set_status = None, set_paymentStatus = None, set_accessStartDate = None,
       set_accessEndDate = None, set_accessDurationDays = None,
       set_lastPaymentDate = None, set_nextPaymentDue = None, set_monthlyFee = Some (Some 7500) \<rparr>"

text \<open>A gateway on which the charge stays pending.\<close>

definition always_pending :: "nat \<Rightarrow> reply" where
  "always_pending k = Reply ''pending''"

section \<open>Lemmas on dates and on the table\<close>

lemma mid_grant_updates: "mid (grant_updates now e d p fee r) = mid r"
  by (simp add: grant_updates_def Let_def split: option.split)

lemma mid_renew_updates: "mid (renew_updates now m e p r) = mid r"
  by (simp add: renew_updates_def)

lemma rows0_select_update:
  assumes "\<And>r. mid (f r) = mid r"
  shows "rows0 (db_select_id k (db_update f k tbl)) = map_option f (rows0 (db_select_id k tbl))"
  using assms by (induction tbl) (auto simp: rows0_def db_select_id_def db_update_def)

lemma db_update_absent: "k \<notin> mid ` set tbl \<Longrightarrow> db_update f k tbl = tbl"
  by (induction tbl) (auto simp: db_update_def)

lemma rows0_select_None: "rows0 (db_select_id k tbl) = None \<longleftrightarrow> k \<notin> mid ` set tbl"
  by (induction tbl) (auto simp: rows0_def db_select_id_def)

lemma list_all2_db_update:
  "list_all2 (\<lambda>r r'. if mid r = k then r' = f r else r' = r) tbl (db_update f k tbl)"
  by (simp add: db_update_def list_all2_map2 list_all2_same)

lemma addDays_fixed_offset: "fixed_offset z c \<Longrightarrow> addDays z t n = t + n * msPerDay"
  by (simp add: fixed_offset_def addDays_def UTC_def LocalTime_def)

lemma addDays_not_before:
  assumes "zone_ok z" and "1 \<le> n"
  shows "t \<le> addDays z t n"
proof -
  have "\<bar>z t True - z (t + z t True + n * msPerDay) False\<bar> \<le> msPerDay"
    using assms(1) by (simp add: zone_ok_def)
  moreover have "msPerDay \<le> n * msPerDay"
    using assms(2) by (simp add: msPerDay_def)
  ultimately show ?thesis
    by (simp add: addDays_def UTC_def LocalTime_def)
qed

lemma zone_ok_fixed_offset: "fixed_offset z c \<Longrightarrow> zone_ok z"
  by (simp add: fixed_offset_def zone_ok_def msPerDay_def)

lemma fixed_offset_utc_zone: "fixed_offset utc_zone 0"
  by (simp add: fixed_offset_def utc_zone_def)

text \<open>
  Where the offset changes inside the window, the end date is not a multiple of a day
  after the start: ten calendar days after \<open>t2026\<close> in \<open>dst_zone\<close> are an hour
  less than ten times 86400000 ms.
\<close>

lemma addDays_dst_zone:
  "addDays dst_zone 1790000000000 10 = 1790000000000 + 10 * msPerDay - 3600000
   \<and> zone_ok dst_zone"
  by (simp add: addDays_def UTC_def LocalTime_def dst_zone_def zone_ok_def msPerDay_def)

lemma pg_timestamp_valid: "pg_timestamp_ok t \<Longrightarrow> \<bar>t\<bar> \<le> maxTime"
  unfolding pg_timestamp_ok_def maxTime_def by linarith

lemma setDate_plus_accepted:
  "pg_timestamp_ok (addDays z t n) \<Longrightarrow> setDate_plus z (Date t) n = Date (addDays z t n)"
  by (simp add: setDate_plus_def TimeClip_def pg_timestamp_valid)

lemma setDate_plus_cases:
  "setDate_plus z (Date t) n = Date (addDays z t n) \<or> setDate_plus z (Date t) n = Invalid_Date"
  by (simp add: setDate_plus_def TimeClip_def)

subsection \<open>grantMerchantAccess: the outcomes\<close>

lemma grantMerchantAccess_accepted:
  assumes "grant_params_ok now (addDays z now d) d (addDays z (addDays z now d) d) fee"
  shows "grantMerchantAccess z now k d fee tbl =
     (Inr (map_option
             (grant_updates now (addDays z now d) d (addDays z (addDays z now d) d) fee)
             (rows0 (db_select_id k tbl))),
      db_update
        (grant_updates now (addDays z now d) d (addDays z (addDays z now d) d) fee) k tbl)"
proof -
  have e: "pg_timestamp_ok (addDays z now d)"
    and p: "pg_timestamp_ok (addDays z (addDays z now d) d)"
    using assms by (simp_all add: grant_params_ok_def)
  show ?thesis
    using assms
    by (simp add: grantMerchantAccess_def setDate_plus_accepted [OF e]
        setDate_plus_accepted [OF p] toISOString_def rows0_select_update mid_grant_updates)
qed

lemma grantMerchantAccess_refused:
  assumes "\<not> grant_params_ok now (addDays z now d) d (addDays z (addDays z now d) d) fee"
  shows "snd (grantMerchantAccess z now k d fee tbl) = tbl
       \<and> (fst (grantMerchantAccess z now k d fee tbl) = Inl RangeError
            \<or> fst (grantMerchantAccess z now k d fee tbl) = Inl PostgresError)"
proof (cases "setDate_plus z (Date now) d")
  case Invalid_Date
  then show ?thesis
    by (simp add: grantMerchantAccess_def toISOString_def setDate_plus_def)
next
  case (Date e)
  then have e: "e = addDays z now d"
    using setDate_plus_cases [of z now d] by simp
  show ?thesis
  proof (cases "setDate_plus z (Date e) d")
    case Invalid_Date
    with Date show ?thesis
      by (simp add: grantMerchantAccess_def toISOString_def)
  next
    case (Date p)
    then have p: "p = addDays z e d"
      using setDate_plus_cases [of z e d] by simp
    from \<open>setDate_plus z (Date now) d = Date e\<close> Date assms show ?thesis
      by (simp add: grantMerchantAccess_def toISOString_def e p)
  qed
qed

lemma grant_updates_fields:
  "grant_updates now e d p fee r =
     r\<lparr> status := ''active'', paymentStatus := ''paid'',
        accessStartDate := Some now, accessEndDate := Some e,
        accessDurationDays := Some d, lastPaymentDate := Some now,
        nextPaymentDue := Some p,
        monthlyFee := (case fee of None \<Rightarrow> monthlyFee r | Some f \<Rightarrow> Some f),
        updatedAt := now \<rparr>"
  by (cases fee) (simp_all add: grant_updates_def)

section \<open>grantMerchantAccess\<close>

text \<open>
  C2. For an existing merchant and a positive number of days, \<open>grantMerchantAccess\<close>
  returns and stores the row with \<open>status\<close> active, \<open>paymentStatus\<close> paid, the window
  starting now and ending \<open>durationDays\<close> calendar days later in the zone of the server,
  \<open>accessDurationDays\<close> set, the last payment now, the next payment due one more cycle
  after the end, and the monthly fee overwritten exactly when the argument is given. In a
  zone of fixed offset the end is \<open>durationDays\<close> times 86400000 ms after now, and the
  next payment as much after the end. This holds when PostgreSQL accepts the parameters:
  now and the two computed dates are of the years 0001 to 9999, the number of days and
  the fee, if given, are 32-bit integers.
\<close>

theorem grantMerchantAccess_effect:
  assumes "getMerchant merchantId tbl = Some m"
    and "0 < durationDays"
    and "pg_integer_ok durationDays"
    and "case fee of None \<Rightarrow> True | Some f \<Rightarrow> pg_integer_ok f"
    and "pg_timestamp_ok now"
    and "pg_timestamp_ok (addDays z now durationDays)"
    and "pg_timestamp_ok (addDays z (addDays z now durationDays) durationDays)"
  shows "fst (grantMerchantAccess z now merchantId durationDays fee tbl) =
           Inr (Some (m\<lparr> status := ''active'', paymentStatus := ''paid'',
                   accessStartDate := Some now,
                   accessEndDate := Some (addDays z now durationDays),
                   accessDurationDays := Some durationDays,
                   lastPaymentDate := Some now,
                   nextPaymentDue := Some (addDays z (addDays z now durationDays) durationDays),
                   monthlyFee := (case fee of None \<Rightarrow> monthlyFee m | Some f \<Rightarrow> Some f),
                   updatedAt := now \<rparr>))
       \<and> getMerchant merchantId (snd (grantMerchantAccess z now merchantId durationDays fee tbl)) =
           Some (m\<lparr> status := ''active'', paymentStatus := ''paid'',
                   accessStartDate := Some now,
                   accessEndDate := Some (addDays z now durationDays),
                   accessDurationDays := Some durationDays,
                   lastPaymentDate := Some now,
                   nextPaymentDue := Some (addDays z (addDays z now durationDays) durationDays),
                   monthlyFee := (case fee of None \<Rightarrow> monthlyFee m | Some f \<Rightarrow> Some f),
                   updatedAt := now \<rparr>)
       \<and> (fixed_offset z c \<longrightarrow>
             addDays z now durationDays = now + durationDays * msPerDay
             \<and> addDays z (addDays z now durationDays) durationDays =
                 now + durationDays * msPerDay + durationDays * msPerDay)"
proof -
  have ok: "grant_params_ok now (addDays z now durationDays) durationDays
      (addDays z (addDays z now durationDays) durationDays) fee"
    using assms(3-7) by (simp add: grant_params_ok_def)
  have sel: "rows0 (db_select_id merchantId tbl) = Some m"
    using assms(1) by (simp add: getMerchant_def)
  have returned: "fst (grantMerchantAccess z now merchantId durationDays fee tbl) =
      Inr (Some (grant_updates now (addDays z now durationDays) durationDays
                   (addDays z (addDays z now durationDays) durationDays) fee m))"
    by (simp add: grantMerchantAccess_accepted [OF ok] sel)
  have stored: "getMerchant merchantId
        (snd (grantMerchantAccess z now merchantId durationDays fee tbl)) =
      Some (grant_updates now (addDays z now durationDays) durationDays
                   (addDays z (addDays z now durationDays) durationDays) fee m)"
    by (simp add: grantMerchantAccess_accepted [OF ok] getMerchant_def rows0_select_update
        mid_grant_updates sel)
  have fixed: "fixed_offset z c \<longrightarrow>
             addDays z now durationDays = now + durationDays * msPerDay
             \<and> addDays z (addDays z now durationDays) durationDays =
                 now + durationDays * msPerDay + durationDays * msPerDay"
    by (simp add: addDays_fixed_offset)
  from returned [unfolded grant_updates_fields] stored [unfolded grant_updates_fields] fixed
  show ?thesis by (intro conjI)
qed

theorem grantMerchantAccess_effect_witness:
  "getMerchant ''m1'' [new_merchant] = Some new_merchant
   \<and> (0::int) < 10 \<and> pg_integer_ok 10 \<and> pg_integer_ok 4990 \<and> pg_timestamp_ok t2026
   \<and> pg_timestamp_ok (addDays utc_zone t2026 10)
   \<and> pg_timestamp_ok (addDays utc_zone (addDays utc_zone t2026 10) 10)
   \<and> fixed_offset utc_zone 0
   \<and> fst (grantMerchantAccess utc_zone t2026 ''m1'' 10 (Some 4990) [new_merchant]) =
       Inr (Some \<lparr> mid = ''m1'', email = ''salon@example.com'', status = ''active'',
              accessStartDate = Some 1790000000000, accessEndDate = Some 1790864000000,
              accessDurationDays = Some 10, lastPaymentDate = Some 1790000000000,
              nextPaymentDue = Some 1791728000000, monthlyFee = Some 4990,
              paymentStatus = ''paid'', planStatus = ''free'', updatedAt = 1790000000000 \<rparr>)"
proof -
  have ev: "addDays utc_zone t n = t + n * msPerDay" for t n
    by (simp add: addDays_def UTC_def LocalTime_def utc_zone_def)
  have h1: "getMerchant ''m1'' [new_merchant] = Some new_merchant"
    by (simp add: getMerchant_def db_select_id_def rows0_def new_merchant_def)
  have h2: "(0::int) < 10" by simp
  have h3: "pg_integer_ok 10" by (simp add: pg_integer_ok_def)
  have h4: "case Some 4990 of None \<Rightarrow> True | Some f \<Rightarrow> pg_integer_ok f"
    by (simp add: pg_integer_ok_def)
  have h5: "pg_timestamp_ok t2026" by (simp add: pg_timestamp_ok_def t2026_def)
  have h6: "pg_timestamp_ok (addDays utc_zone t2026 10)"
    by (simp add: ev pg_timestamp_ok_def t2026_def msPerDay_def)
  have h7: "pg_timestamp_ok (addDays utc_zone (addDays utc_zone t2026 10) 10)"
    by (simp add: ev pg_timestamp_ok_def t2026_def msPerDay_def)
  have h8: "fixed_offset utc_zone 0" by (rule fixed_offset_utc_zone)
  have "fst (grantMerchantAccess utc_zone t2026 ''m1'' 10 (Some 4990) [new_merchant]) =
       Inr (Some \<lparr> mid = ''m1'', email = ''salon@example.com'', status = ''active'',
              accessStartDate = Some 1790000000000, accessEndDate = Some 1790864000000,
              accessDurationDays = Some 10, lastPaymentDate = Some 1790000000000,
              nextPaymentDue = Some 1791728000000, monthlyFee = Some 4990,
              paymentStatus = ''paid'', planStatus = ''free'', updatedAt = 1790000000000 \<rparr>)"
    using grantMerchantAccess_effect [OF h1 h2 h3 h4 h5 h6 h7, of 0]
    by (simp add: ev new_merchant_def t2026_def msPerDay_def)
  with h1 h2 h3 h4 h5 h6 h7 h8 show ?thesis by simp
qed

text \<open>
  As stated for every positive number of days, C2 fails: with one hundred million days the
  end date is beyond the last valid JavaScript date, \<open>toISOString\<close> throws, and the row
  stays as it was, not active.
\<close>

theorem grantMerchantAccess_counterexample:
  "grantMerchantAccess utc_zone t2026 ''m1'' 100000000 None [new_merchant]
     = (Inl RangeError, [new_merchant])
   \<and> status new_merchant \<noteq> ''active''"
  by (simp add: grantMerchantAccess_def setDate_plus_def TimeClip_def toISOString_def
      addDays_def UTC_def LocalTime_def utc_zone_def
      t2026_def msPerDay_def maxTime_def new_merchant_def)

text \<open>
  Below that, three million days put the end date in the year 10240 and a fee of three
  thousand million does not fit the column: PostgreSQL refuses the statement and the row
  stays as it was.
\<close>

lemma grantMerchantAccess_refused_examples:
  "grantMerchantAccess utc_zone t2026 ''m1'' 3000000 None [new_merchant]
     = (Inl PostgresError, [new_merchant])
   \<and> grantMerchantAccess utc_zone t2026 ''m1'' 10 (Some 3000000000) [new_merchant]
     = (Inl PostgresError, [new_merchant])"
  by (simp add: grantMerchantAccess_def setDate_plus_def TimeClip_def toISOString_def
      addDays_def UTC_def LocalTime_def utc_zone_def grant_params_ok_def pg_timestamp_ok_def
      pg_integer_ok_def t2026_def msPerDay_def maxTime_def new_merchant_def)

section \<open>renewMerchantAccess\<close>

lemma renewMerchantAccess_accepted:
  assumes "rows0 (db_select_id k tbl) = Some m"
    and "renew_params_ok now m (addDays z (renew_baseDate now m) (renew_duration m))
           (addDays z (addDays z (renew_baseDate now m) (renew_duration m)) (renew_duration m))"
  shows "renewMerchantAccess z now k tbl =
     (Inr (Some (renew_updates now m (addDays z (renew_baseDate now m) (renew_duration m))
                   (addDays z (addDays z (renew_baseDate now m) (renew_duration m))
                      (renew_duration m)) m)),
      db_update (renew_updates now m (addDays z (renew_baseDate now m) (renew_duration m))
                   (addDays z (addDays z (renew_baseDate now m) (renew_duration m))
                      (renew_duration m))) k tbl)"
proof -
  have e: "pg_timestamp_ok (addDays z (renew_baseDate now m) (renew_duration m))"
    and p: "pg_timestamp_ok
      (addDays z (addDays z (renew_baseDate now m) (renew_duration m)) (renew_duration m))"
    using assms(2) by (simp_all add: renew_params_ok_def)
  show ?thesis
    using assms
    by (simp add: renewMerchantAccess_def setDate_plus_accepted [OF e]
        setDate_plus_accepted [OF p] toISOString_def rows0_select_update mid_renew_updates
        Let_def)
qed

lemma renewMerchantAccess_table:
  "snd (renewMerchantAccess z now k tbl) = tbl
   \<or> (\<exists>m. rows0 (db_select_id k tbl) = Some m
         \<and> pg_timestamp_ok (addDays z (renew_baseDate now m) (renew_duration m))
         \<and> snd (renewMerchantAccess z now k tbl) =
             db_update (renew_updates now m (addDays z (renew_baseDate now m) (renew_duration m))
                   (addDays z (addDays z (renew_baseDate now m) (renew_duration m))
                      (renew_duration m))) k tbl)"
proof (cases "rows0 (db_select_id k tbl)")
  case None
  then show ?thesis by (simp add: renewMerchantAccess_def)
next
  case (Some m)
  show ?thesis
  proof (cases "renew_params_ok now m (addDays z (renew_baseDate now m) (renew_duration m))
           (addDays z (addDays z (renew_baseDate now m) (renew_duration m)) (renew_duration m))")
    case True
    then have "pg_timestamp_ok (addDays z (renew_baseDate now m) (renew_duration m))"
      by (simp add: renew_params_ok_def)
    with Some True show ?thesis
      by (simp add: renewMerchantAccess_accepted [OF Some True])
  next
    case False
    have "snd (renewMerchantAccess z now k tbl) = tbl"
    proof (cases "setDate_plus z (Date (renew_baseDate now m)) (renew_duration m)")
      case Invalid_Date
      with Some show ?thesis
        by (simp add: renewMerchantAccess_def toISOString_def setDate_plus_def Let_def)
    next
      case (Date e)
      then have e: "e = addDays z (renew_baseDate now m) (renew_duration m)"
        using setDate_plus_cases [of z "renew_baseDate now m" "renew_duration m"] by simp
      show ?thesis
      proof (cases "setDate_plus z (Date e) (renew_duration m)")
        case Invalid_Date
        with Some Date show ?thesis
          by (simp add: renewMerchantAccess_def toISOString_def Let_def)
      next
        case (Date p)
        then have p: "p = addDays z e (renew_duration m)"
          using setDate_plus_cases [of z e "renew_duration m"] by simp
        from Some \<open>setDate_plus z (Date (renew_baseDate now m)) (renew_duration m) = Date e\<close>
          Date False
        show ?thesis
          by (simp add: renewMerchantAccess_def toISOString_def Let_def e p)
      qed
    qed
    then show ?thesis by simp
  qed
qed

text \<open>
  C1. For an existing merchant, \<open>renewMerchantAccess\<close> extends from the later of the
  stored end date and now (from now when there is no end date) by the stored number of
  days, or by 30 days when that number is NULL or 0, counted as calendar days in the zone
  of the server; the next payment is due one more cycle after the new end; \<open>status\<close> is
  active, \<open>paymentStatus\<close> paid, the last payment now, and the start date is kept if
  there is one and set to now otherwise. When the number of days used is not negative and
  the offset of the zone never changes by more than a day, the new end date is not before
  the old one. In a zone of fixed offset the new end is that number of days times
  86400000 ms after the base date. This holds for a row whose stored dates are of the
  years 0001 to 9999, when PostgreSQL accepts now and the two computed dates.
\<close>

theorem renewMerchantAccess_effect:
  assumes "getMerchant merchantId tbl = Some m"
    and "baseDate = (case accessEndDate m of None \<Rightarrow> now | Some e \<Rightarrow> max e now)"
    and "d = (case accessDurationDays m of None \<Rightarrow> 30 | Some n \<Rightarrow> if n = 0 then 30 else n)"
    and "case accessStartDate m of None \<Rightarrow> True | Some s \<Rightarrow> pg_timestamp_ok s"
    and "case accessEndDate m of None \<Rightarrow> True | Some e \<Rightarrow> pg_timestamp_ok e"
    and "pg_timestamp_ok now"
    and "pg_timestamp_ok (addDays z baseDate d)"
    and "pg_timestamp_ok (addDays z (addDays z baseDate d) d)"
  shows "fst (renewMerchantAccess z now merchantId tbl) =
           Inr (Some (m\<lparr> status := ''active'', paymentStatus := ''paid'',
                   accessStartDate := Some (case accessStartDate m of None \<Rightarrow> now | Some s \<Rightarrow> s),
                   accessEndDate := Some (addDays z baseDate d),
                   lastPaymentDate := Some now,
                   nextPaymentDue := Some (addDays z (addDays z baseDate d) d),
                   updatedAt := now \<rparr>))
       \<and> getMerchant merchantId (snd (renewMerchantAccess z now merchantId tbl)) =
           Some (m\<lparr> status := ''active'', paymentStatus := ''paid'',
                   accessStartDate := Some (case accessStartDate m of None \<Rightarrow> now | Some s \<Rightarrow> s),
                   accessEndDate := Some (addDays z baseDate d),
                   lastPaymentDate := Some now,
                   nextPaymentDue := Some (addDays z (addDays z baseDate d) d),
                   updatedAt := now \<rparr>)
       \<and> (0 \<le> d \<and> zone_ok z \<longrightarrow>
             (case accessEndDate m of None \<Rightarrow> True | Some e \<Rightarrow> e \<le> addDays z baseDate d))
       \<and> (fixed_offset z c \<longrightarrow>
             addDays z baseDate d = baseDate + d * msPerDay
             \<and> addDays z (addDays z baseDate d) d = baseDate + d * msPerDay + d * msPerDay)"
proof -
  have sel: "rows0 (db_select_id merchantId tbl) = Some m"
    using assms(1) by (simp add: getMerchant_def)
  have b: "renew_baseDate now m = baseDate"
    unfolding assms(2) by (simp add: renew_baseDate_def max_def split: option.split)
  have dd: "renew_duration m = d"
    unfolding assms(3) by (simp add: renew_duration_def)
  have d_nz: "d \<noteq> 0"
    unfolding assms(3) by (simp split: option.split)
  have ok: "renew_params_ok now m (addDays z (renew_baseDate now m) (renew_duration m))
           (addDays z (addDays z (renew_baseDate now m) (renew_duration m)) (renew_duration m))"
    using assms(4,6,7,8) by (auto simp: renew_params_ok_def b dd split: option.splits)
  have start: "(case accessStartDate m of None \<Rightarrow> Some now | Some s \<Rightarrow> Some s)
      = Some (case accessStartDate m of None \<Rightarrow> now | Some s \<Rightarrow> s)"
    by (simp split: option.split)
  have mono: "0 \<le> d \<and> zone_ok z \<longrightarrow>
      (case accessEndDate m of None \<Rightarrow> True | Some e \<Rightarrow> e \<le> addDays z baseDate d)"
  proof
    assume a: "0 \<le> d \<and> zone_ok z"
    with d_nz have "1 \<le> d" by simp
    with a have "baseDate \<le> addDays z baseDate d"
      by (simp add: addDays_not_before)
    then show "case accessEndDate m of None \<Rightarrow> True | Some e \<Rightarrow> e \<le> addDays z baseDate d"
      unfolding assms(2) by (auto split: option.split simp: max_def)
  qed
  have fixed: "fixed_offset z c \<longrightarrow>
             addDays z baseDate d = baseDate + d * msPerDay
             \<and> addDays z (addDays z baseDate d) d = baseDate + d * msPerDay + d * msPerDay"
    by (simp add: addDays_fixed_offset)
  have upd: "renew_updates now m (addDays z baseDate d) (addDays z (addDays z baseDate d) d) m
      = m\<lparr> status := ''active'', paymentStatus := ''paid'',
                   accessStartDate := Some (case accessStartDate m of None \<Rightarrow> now | Some s \<Rightarrow> s),
                   accessEndDate := Some (addDays z baseDate d),
                   lastPaymentDate := Some now,
                   nextPaymentDue := Some (addDays z (addDays z baseDate d) d),
                   updatedAt := now \<rparr>"
    by (simp add: renew_updates_def start)
  have res: "renewMerchantAccess z now merchantId tbl =
     (Inr (Some (renew_updates now m (addDays z baseDate d)
                   (addDays z (addDays z baseDate d) d) m)),
      db_update (renew_updates now m (addDays z baseDate d)
                   (addDays z (addDays z baseDate d) d)) merchantId tbl)"
    using renewMerchantAccess_accepted [OF sel ok] by (simp add: b dd)
  have stored: "getMerchant merchantId (snd (renewMerchantAccess z now merchantId tbl))
      = Some (renew_updates now m (addDays z baseDate d)
                   (addDays z (addDays z baseDate d) d) m)"
    by (simp add: res getMerchant_def rows0_select_update mid_renew_updates sel)
  have returned: "fst (renewMerchantAccess z now merchantId tbl)
      = Inr (Some (renew_updates now m (addDays z baseDate d)
                   (addDays z (addDays z baseDate d) d) m))"
    by (simp add: res)
  from returned [unfolded upd] stored [unfolded upd] mono fixed
  show ?thesis by (intro conjI)
qed

theorem renewMerchantAccess_effect_witness:
  "getMerchant ''m1'' [active_merchant] = Some active_merchant
   \<and> pg_timestamp_ok t2026 \<and> zone_ok utc_zone \<and> fixed_offset utc_zone 0
   \<and> fst (renewMerchantAccess utc_zone t2026 ''m1'' [active_merchant]) =
       Inr (Some \<lparr> mid = ''m1'', email = ''salon@example.com'', status = ''active'',
              accessStartDate = Some 1789000000000, accessEndDate = Some 1793456000000,
              accessDurationDays = Some 30, lastPaymentDate = Some 1790000000000,
              nextPaymentDue = Some 1796048000000, monthlyFee = Some 5000,
              paymentStatus = ''paid'', planStatus = ''free'', updatedAt = 1790000000000 \<rparr>)
   \<and> (1790864000000::int) \<le> 1793456000000"
proof -
  have ev: "addDays utc_zone t n = t + n * msPerDay" for t n
    by (simp add: addDays_def UTC_def LocalTime_def utc_zone_def)
  have h1: "getMerchant ''m1'' [active_merchant] = Some active_merchant"
    by (simp add: getMerchant_def db_select_id_def rows0_def active_merchant_def new_merchant_def)
  have h2: "(1790864000000::int) =
     (case accessEndDate active_merchant of None \<Rightarrow> t2026 | Some e \<Rightarrow> max e t2026)"
    by (simp add: active_merchant_def new_merchant_def t2026_def)
  have h3: "(30::int) = (case accessDurationDays active_merchant of None \<Rightarrow> 30
                 | Some n \<Rightarrow> if n = 0 then 30 else n)"
    by (simp add: active_merchant_def new_merchant_def)
  have h4: "case accessStartDate active_merchant of None \<Rightarrow> True | Some s \<Rightarrow> pg_timestamp_ok s"
    by (simp add: active_merchant_def new_merchant_def pg_timestamp_ok_def)
  have h5: "case accessEndDate active_merchant of None \<Rightarrow> True | Some e \<Rightarrow> pg_timestamp_ok e"
    by (simp add: active_merchant_def new_merchant_def pg_timestamp_ok_def)
  have h6: "pg_timestamp_ok t2026" by (simp add: pg_timestamp_ok_def t2026_def)
  have h7: "pg_timestamp_ok (addDays utc_zone 1790864000000 30)"
    by (simp add: ev pg_timestamp_ok_def msPerDay_def)
  have h8: "pg_timestamp_ok (addDays utc_zone (addDays utc_zone 1790864000000 30) 30)"
    by (simp add: ev pg_timestamp_ok_def msPerDay_def)
  have z1: "fixed_offset utc_zone 0" by (rule fixed_offset_utc_zone)
  have z2: "zone_ok utc_zone" using z1 by (rule zone_ok_fixed_offset)
  have "fst (renewMerchantAccess utc_zone t2026 ''m1'' [active_merchant]) =
       Inr (Some \<lparr> mid = ''m1'', email = ''salon@example.com'', status = ''active'',
              accessStartDate = Some 1789000000000, accessEndDate = Some 1793456000000,
              accessDurationDays = Some 30, lastPaymentDate = Some 1790000000000,
              nextPaymentDue = Some 1796048000000, monthlyFee = Some 5000,
              paymentStatus = ''paid'', planStatus = ''free'', updatedAt = 1790000000000 \<rparr>)"
    using renewMerchantAccess_effect [OF h1 h2 h3 h4 h5 h6 h7 h8, of 0]
    by (simp add: ev active_merchant_def new_merchant_def msPerDay_def t2026_def)
  with h1 h6 z1 z2 show ?thesis by simp
qed

text \<open>
  As stated for every existing merchant, C1 fails. A row with a negative number of days
  (the column is an integer without a check) is renewed to an end date before its old
  one; a row with 0 days is extended by 30 days, not by 0.
\<close>

theorem renewMerchantAccess_counterexample:
  "map accessEndDate
     (snd (renewMerchantAccess utc_zone t2026 ''m1''
             [active_merchant\<lparr>accessDurationDays := Some (- 5)\<rparr>]))
     = [Some 1790432000000]
   \<and> accessEndDate active_merchant = Some 1790864000000
   \<and> (1790432000000::int) < 1790864000000
   \<and> map accessEndDate
     (snd (renewMerchantAccess utc_zone t2026 ''m1''
             [active_merchant\<lparr>accessDurationDays := Some 0\<rparr>]))
     = [Some (1790864000000 + 30 * msPerDay)]"
  by (simp add: renewMerchantAccess_def renew_baseDate_def renew_duration_def renew_updates_def
      renew_params_ok_def pg_timestamp_ok_def
      setDate_plus_def TimeClip_def toISOString_def db_update_def db_select_id_def rows0_def
      addDays_def UTC_def LocalTime_def utc_zone_def
      t2026_def msPerDay_def maxTime_def active_merchant_def new_merchant_def)

section \<open>grantMerchantAccess on a missing merchant\<close>

lemma grantMerchantAccess_absent:
  assumes "merchantId \<notin> mid ` set tbl"
  shows "snd (grantMerchantAccess z now merchantId d fee tbl) = tbl
       \<and> (fst (grantMerchantAccess z now merchantId d fee tbl) = Inr None
            \<or> fst (grantMerchantAccess z now merchantId d fee tbl) = Inl RangeError
            \<or> fst (grantMerchantAccess z now merchantId d fee tbl) = Inl PostgresError)
       \<and> (grant_params_ok now (addDays z now d) d (addDays z (addDays z now d) d) fee
            \<longrightarrow> fst (grantMerchantAccess z now merchantId d fee tbl) = Inr None)"
proof (cases "grant_params_ok now (addDays z now d) d (addDays z (addDays z now d) d) fee")
  case True
  have none: "rows0 (db_select_id merchantId tbl) = None"
    using assms by (simp add: rows0_select_None)
  show ?thesis
    using assms by (simp add: grantMerchantAccess_accepted [OF True] none db_update_absent)
next
  case False
  with grantMerchantAccess_refused [OF False, of merchantId tbl] show ?thesis by auto
qed

lemma grantMerchantAccess_whole:
  assumes "getMerchant merchantId tbl = Some m"
  shows "((fst (grantMerchantAccess z now merchantId d fee tbl) = Inl RangeError
            \<or> fst (grantMerchantAccess z now merchantId d fee tbl) = Inl PostgresError)
           \<and> snd (grantMerchantAccess z now merchantId d fee tbl) = tbl)
       \<or> (fst (grantMerchantAccess z now merchantId d fee tbl) =
              Inr (Some (m\<lparr> status := ''active'', paymentStatus := ''paid'',
                   accessStartDate := Some now,
                   accessEndDate := Some (addDays z now d),
                   accessDurationDays := Some d,
                   lastPaymentDate := Some now,
                   nextPaymentDue := Some (addDays z (addDays z now d) d),
                   monthlyFee := (case fee of None \<Rightarrow> monthlyFee m | Some f \<Rightarrow> Some f),
                   updatedAt := now \<rparr>))
           \<and> list_all2
               (\<lambda>r r'. if mid r = merchantId
                  then r' = r\<lparr> status := ''active'', paymentStatus := ''paid'',
                           accessStartDate := Some now,
                           accessEndDate := Some (addDays z now d),
                           accessDurationDays := Some d,
                           lastPaymentDate := Some now,
                           nextPaymentDue := Some (addDays z (addDays z now d) d),
                           monthlyFee := (case fee of None \<Rightarrow> monthlyFee r | Some f \<Rightarrow> Some f),
                           updatedAt := now \<rparr>
                  else r' = r)
               tbl (snd (grantMerchantAccess z now merchantId d fee tbl)))"
proof (cases "grant_params_ok now (addDays z now d) d (addDays z (addDays z now d) d) fee")
  case True
  have sel: "rows0 (db_select_id merchantId tbl) = Some m"
    using assms by (simp add: getMerchant_def)
  have returned: "fst (grantMerchantAccess z now merchantId d fee tbl) =
      Inr (Some (grant_updates now (addDays z now d) d (addDays z (addDays z now d) d) fee m))"
    by (simp add: grantMerchantAccess_accepted [OF True] sel)
  have rows: "list_all2
      (\<lambda>r r'. if mid r = merchantId
          then r' = grant_updates now (addDays z now d) d (addDays z (addDays z now d) d) fee r
          else r' = r)
      tbl (snd (grantMerchantAccess z now merchantId d fee tbl))"
    by (simp add: grantMerchantAccess_accepted [OF True] list_all2_db_update)
  from returned [unfolded grant_updates_fields] rows [unfolded grant_updates_fields]
  show ?thesis by (intro disjI2 conjI)
next
  case False
  with grantMerchantAccess_refused [OF False, of merchantId tbl] show ?thesis by auto
qed

text \<open>
  C6. When no row has the merchant id, \<open>grantMerchantAccess\<close> leaves the table as it is
  (so it creates no row); it returns \<open>null\<close> whenever PostgreSQL accepts the parameters
  (now and the two computed dates of the years 0001 to 9999, the number of days and the
  fee 32-bit integers), and throws otherwise. For an existing merchant the update is one
  statement: either the call throws and the table is as before, or the row is returned
  with all the columns of the grant written and every row of the table after the call is
  the row before it or, if it has the id, that row with all those columns written.
\<close>

theorem grantMerchantAccess_not_found:
  "(merchantId \<notin> mid ` set tbl \<longrightarrow>
      snd (grantMerchantAccess z now merchantId d fee tbl) = tbl
      \<and> (fst (grantMerchantAccess z now merchantId d fee tbl) = Inr None
           \<or> fst (grantMerchantAccess z now merchantId d fee tbl) = Inl RangeError
           \<or> fst (grantMerchantAccess z now merchantId d fee tbl) = Inl PostgresError)
      \<and> (pg_integer_ok d \<and> (case fee of None \<Rightarrow> True | Some f \<Rightarrow> pg_integer_ok f)
           \<and> pg_timestamp_ok now \<and> pg_timestamp_ok (addDays z now d)
           \<and> pg_timestamp_ok (addDays z (addDays z now d) d)
           \<longrightarrow> fst (grantMerchantAccess z now merchantId d fee tbl) = Inr None))
   \<and> (\<forall>m. getMerchant merchantId tbl = Some m \<longrightarrow>
        ((fst (grantMerchantAccess z now merchantId d fee tbl) = Inl RangeError
            \<or> fst (grantMerchantAccess z now merchantId d fee tbl) = Inl PostgresError)
           \<and> snd (grantMerchantAccess z now merchantId d fee tbl) = tbl)
        \<or> (fst (grantMerchantAccess z now merchantId d fee tbl) =
              Inr (Some (m\<lparr> status := ''active'', paymentStatus := ''paid'',
                   accessStartDate := Some now,
                   accessEndDate := Some (addDays z now d),
                   accessDurationDays := Some d,
                   lastPaymentDate := Some now,
                   nextPaymentDue := Some (addDays z (addDays z now d) d),
                   monthlyFee := (case fee of None \<Rightarrow> monthlyFee m | Some f \<Rightarrow> Some f),
                   updatedAt := now \<rparr>))
           \<and> list_all2
               (\<lambda>r r'. if mid r = merchantId
                  then r' = r\<lparr> status := ''active'', paymentStatus := ''paid'',
                           accessStartDate := Some now,
                           accessEndDate := Some (addDays z now d),
                           accessDurationDays := Some d,
                           lastPaymentDate := Some now,
                           nextPaymentDue := Some (addDays z (addDays z now d) d),
                           monthlyFee := (case fee of None \<Rightarrow> monthlyFee r | Some f \<Rightarrow> Some f),
                           updatedAt := now \<rparr>
                  else r' = r)
               tbl (snd (grantMerchantAccess z now merchantId d fee tbl))))"
proof (intro conjI impI allI)
  assume a: "merchantId \<notin> mid ` set tbl"
  from grantMerchantAccess_absent [OF a, of z now d fee]
  show "snd (grantMerchantAccess z now merchantId d fee tbl) = tbl"
    and "fst (grantMerchantAccess z now merchantId d fee tbl) = Inr None
           \<or> fst (grantMerchantAccess z now merchantId d fee tbl) = Inl RangeError
           \<or> fst (grantMerchantAccess z now merchantId d fee tbl) = Inl PostgresError"
    by blast+
  assume "pg_integer_ok d \<and> (case fee of None \<Rightarrow> True | Some f \<Rightarrow> pg_integer_ok f)
           \<and> pg_timestamp_ok now \<and> pg_timestamp_ok (addDays z now d)
           \<and> pg_timestamp_ok (addDays z (addDays z now d) d)"
  then have "grant_params_ok now (addDays z now d) d (addDays z (addDays z now d) d) fee"
    by (simp add: grant_params_ok_def)
  with grantMerchantAccess_absent [OF a, of z now d fee]
  show "fst (grantMerchantAccess z now merchantId d fee tbl) = Inr None"
    by blast
next
  fix m
  assume "getMerchant merchantId tbl = Some m"
  then show "((fst (grantMerchantAccess z now merchantId d fee tbl) = Inl RangeError
            \<or> fst (grantMerchantAccess z now merchantId d fee tbl) = Inl PostgresError)
           \<and> snd (grantMerchantAccess z now merchantId d fee tbl) = tbl)
        \<or> (fst (grantMerchantAccess z now merchantId d fee tbl) =
              Inr (Some (m\<lparr> status := ''active'', paymentStatus := ''paid'',
                   accessStartDate := Some now,
                   accessEndDate := Some (addDays z now d),
                   accessDurationDays := Some d,
                   lastPaymentDate := Some now,
                   nextPaymentDue := Some (addDays z (addDays z now d) d),
                   monthlyFee := (case fee of None \<Rightarrow> monthlyFee m | Some f \<Rightarrow> Some f),
                   updatedAt := now \<rparr>))
           \<and> list_all2
               (\<lambda>r r'. if mid r = merchantId
                  then r' = r\<lparr> status := ''active'', paymentStatus := ''paid'',
                           accessStartDate := Some now,
                           accessEndDate := Some (addDays z now d),
                           accessDurationDays := Some d,
                           lastPaymentDate := Some now,
                           nextPaymentDue := Some (addDays z (addDays z now d) d),
                           monthlyFee := (case fee of None \<Rightarrow> monthlyFee r | Some f \<Rightarrow> Some f),
                           updatedAt := now \<rparr>
                  else r' = r)
               tbl (snd (grantMerchantAccess z now merchantId d fee tbl)))"
    by (rule grantMerchantAccess_whole)
qed

theorem grantMerchantAccess_not_found_witness:
  "''m2'' \<notin> mid ` set [new_merchant]
   \<and> grantMerchantAccess utc_zone t2026 ''m2'' 10 None [new_merchant] = (Inr None, [new_merchant])
   \<and> getMerchant ''m1'' two_merchants = Some active_merchant
   \<and> snd (grantMerchantAccess utc_zone t2026 ''m1'' 10 None two_merchants) =
       [\<lparr> mid = ''m1'', email = ''salon@example.com'', status = ''active'',
              accessStartDate = Some 1790000000000, accessEndDate = Some 1790864000000,
              accessDurationDays = Some 10, lastPaymentDate = Some 1790000000000,
              nextPaymentDue = Some 1791728000000, monthlyFee = Some 5000,
              paymentStatus = ''paid'', planStatus = ''free'', updatedAt = 1790000000000 \<rparr>,
        new_merchant\<lparr> mid := ''m2'', status := ''active'',
                       accessEndDate := Some 1800000000000 \<rparr>]"
proof -
  have ev: "addDays utc_zone t n = t + n * msPerDay" for t n
    by (simp add: addDays_def UTC_def LocalTime_def utc_zone_def)
  have h1: "''m2'' \<notin> mid ` set [new_merchant]"
    by (simp add: new_merchant_def)
  have h2: "pg_integer_ok 10 \<and> (case None of None \<Rightarrow> True | Some f \<Rightarrow> pg_integer_ok f)
           \<and> pg_timestamp_ok t2026 \<and> pg_timestamp_ok (addDays utc_zone t2026 10)
           \<and> pg_timestamp_ok (addDays utc_zone (addDays utc_zone t2026 10) 10)"
    by (simp add: ev pg_integer_ok_def pg_timestamp_ok_def t2026_def msPerDay_def)
  have h3: "getMerchant ''m1'' two_merchants = Some active_merchant"
    by (simp add: getMerchant_def db_select_id_def rows0_def two_merchants_def
        active_merchant_def new_merchant_def)
  have absent: "grantMerchantAccess utc_zone t2026 ''m2'' 10 None [new_merchant]
      = (Inr None, [new_merchant])"
    using h1 h2
      grantMerchantAccess_not_found [of "''m2''" "[new_merchant]" utc_zone t2026 10 None]
    by (simp add: prod_eq_iff)
  have present: "snd (grantMerchantAccess utc_zone t2026 ''m1'' 10 None two_merchants) =
       [\<lparr> mid = ''m1'', email = ''salon@example.com'', status = ''active'',
              accessStartDate = Some 1790000000000, accessEndDate = Some 1790864000000,
              accessDurationDays = Some 10, lastPaymentDate = Some 1790000000000,
              nextPaymentDue = Some 1791728000000, monthlyFee = Some 5000,
              paymentStatus = ''paid'', planStatus = ''free'', updatedAt = 1790000000000 \<rparr>,
        new_merchant\<lparr> mid := ''m2'', status := ''active'',
                       accessEndDate := Some 1800000000000 \<rparr>]"
    by (simp add: grantMerchantAccess_def setDate_plus_def TimeClip_def toISOString_def ev
        grant_params_ok_def pg_integer_ok_def pg_timestamp_ok_def
        grant_updates_def db_update_def t2026_def msPerDay_def maxTime_def
        two_merchants_def active_merchant_def new_merchant_def Let_def)
  from h1 absent h3 present show ?thesis by blast
qed

text \<open>
  As stated for every duration, C6 fails: with one hundred million days the call on a
  missing merchant throws the RangeError instead of returning \<open>null\<close>.
\<close>

theorem grantMerchantAccess_not_found_counterexample:
  "''m2'' \<notin> mid ` set [new_merchant]
   \<and> grantMerchantAccess utc_zone t2026 ''m2'' 100000000 None [new_merchant]
       = (Inl RangeError, [new_merchant])"
  by (simp add: grantMerchantAccess_def setDate_plus_def TimeClip_def toISOString_def
      addDays_def UTC_def LocalTime_def utc_zone_def
      t2026_def msPerDay_def maxTime_def new_merchant_def)

section \<open>suspendMerchantAccess\<close>

text \<open>
  C8. For an existing merchant, \<open>suspendMerchantAccess\<close> returns and stores the row with
  \<open>status\<close> set to \<open>payment_pending\<close> and \<open>updatedAt\<close> set to now; every other
  column, the end date and \<open>paymentStatus\<close> among them, is as before, and so is every
  other row.
\<close>

theorem suspendMerchantAccess_effect:
  assumes "getMerchant merchantId tbl = Some m"
  shows "fst (suspendMerchantAccess now merchantId tbl) =
           Some (m\<lparr>status := ''payment_pending'', updatedAt := now\<rparr>)
       \<and> getMerchant merchantId (snd (suspendMerchantAccess now merchantId tbl)) =
           Some (m\<lparr>status := ''payment_pending'', updatedAt := now\<rparr>)
       \<and> list_all2 (\<lambda>r r'. if mid r = merchantId
                            then r' = r\<lparr>status := ''payment_pending'', updatedAt := now\<rparr>
                            else r' = r)
            tbl (snd (suspendMerchantAccess now merchantId tbl))"
proof -
  have sel: "rows0 (db_select_id merchantId tbl) = Some m"
    using assms by (simp add: getMerchant_def)
  show ?thesis
    by (simp add: suspendMerchantAccess_def getMerchant_def rows0_select_update sel
        list_all2_db_update)
qed

theorem suspendMerchantAccess_effect_witness:
  "getMerchant ''m1'' [active_merchant] = Some active_merchant
   \<and> fst (suspendMerchantAccess t2026 ''m1'' [active_merchant]) =
       Some \<lparr> mid = ''m1'', email = ''salon@example.com'', status = ''payment_pending'',
              accessStartDate = Some 1789000000000, accessEndDate = Some 1790864000000,
              accessDurationDays = Some 30, lastPaymentDate = None,
              nextPaymentDue = None, monthlyFee = Some 5000,
              paymentStatus = ''paid'', planStatus = ''free'', updatedAt = 1790000000000 \<rparr>"
proof -
  have h1: "getMerchant ''m1'' [active_merchant] = Some active_merchant"
    by (simp add: getMerchant_def db_select_id_def rows0_def active_merchant_def new_merchant_def)
  show ?thesis
    using h1 suspendMerchantAccess_effect [OF h1, of t2026]
    by (simp add: active_merchant_def new_merchant_def t2026_def)
qed

text \<open>
  As stated, with every other field unchanged, C8 fails: \<open>updatedAt\<close> is written too.
\<close>

theorem suspendMerchantAccess_counterexample:
  "updatedAt active_merchant = 0
   \<and> map updatedAt (snd (suspendMerchantAccess t2026 ''m1'' [active_merchant]))
       = [1790000000000]"
  by (simp add: suspendMerchantAccess_def db_update_def active_merchant_def new_merchant_def
      t2026_def Let_def)

section \<open>processExpiredAccess\<close>

lemma processExpiredAccess_throws:
  "processExpiredAccess clk tbl = (Inl TypeError, tbl)"
  by (simp add: processExpiredAccess_def mapToDriverValue_def)

lemma getMerchantsWithExpiredAccess_throws:
  "getMerchantsWithExpiredAccess now tbl = Inl TypeError"
  by (simp add: getMerchantsWithExpiredAccess_def mapToDriverValue_def)

text \<open>
  The loop by itself, on any list of selected rows, sets \<open>status\<close> and \<open>updatedAt\<close>
  on the rows with a selected id and leaves every other row and every other column as
  they are. The call never reaches it.
\<close>

lemma expired_loop_rows:
  "list_all2 (\<lambda>r r'. if mid r \<in> mid ` set ms then swept r r' else r' = r)
     tbl (expired_loop clk n ms tbl)"
proof (induction ms arbitrary: n tbl)
  case Nil
  show ?case by (simp add: list_all2_same)
next
  case (Cons m ms)
  let ?f = "\<lambda>r. if mid r = mid m
                then r\<lparr>status := ''payment_pending'', updatedAt := clk n\<rparr> else r"
  have step: "list_all2 (\<lambda>r r'. if mid (?f r) \<in> mid ` set ms then swept (?f r) r' else r' = ?f r)
      tbl (expired_loop clk (Suc n) ms (map ?f tbl))"
    using Cons.IH [where n = "Suc n" and tbl = "map ?f tbl"] by (simp add: list_all2_map1)
  have "list_all2 (\<lambda>r r'. if mid r \<in> mid ` set (m # ms) then swept r r' else r' = r)
      tbl (expired_loop clk (Suc n) ms (map ?f tbl))"
    by (rule list_all2_mono [OF step]) (auto simp: swept_def split: if_splits)
  then show ?case
    by (simp add: db_update_def)
qed

text \<open>
  C3. The table holds one merchant that is active with an end date before now, so the
  sweep has one merchant to set to \<open>payment_pending\<close> and to count. The call throws the
  TypeError while the selection is built: it returns no count and the table is as before.
\<close>

theorem processExpiredAccess_no_count:
  "filter (expired_where 1791000000000) two_merchants = [active_merchant]
   \<and> processExpiredAccess (clock_from 1791000000000) two_merchants
       = (Inl TypeError, two_merchants)"
  by (simp add: processExpiredAccess_throws)
     (simp add: expired_where_def two_merchants_def active_merchant_def new_merchant_def)

lemma expired_loop_frame:
  "list_all2
     (\<lambda>r r'. r' = r \<or>
        (r' = r\<lparr>status := ''payment_pending'', updatedAt := updatedAt r'\<rparr>
         \<and> accessEndDate r' = accessEndDate r \<and> paymentStatus r' = paymentStatus r
         \<and> accessStartDate r' = accessStartDate r
         \<and> accessDurationDays r' = accessDurationDays r
         \<and> monthlyFee r' = monthlyFee r \<and> lastPaymentDate r' = lastPaymentDate r
         \<and> nextPaymentDue r' = nextPaymentDue r))
     tbl (expired_loop clk n ms tbl)"
proof -
  have frame: "accessEndDate r' = accessEndDate r \<and> paymentStatus r' = paymentStatus r
         \<and> accessStartDate r' = accessStartDate r
         \<and> accessDurationDays r' = accessDurationDays r
         \<and> monthlyFee r' = monthlyFee r \<and> lastPaymentDate r' = lastPaymentDate r
         \<and> nextPaymentDue r' = nextPaymentDue r"
    if "r' = r\<lparr>status := ''payment_pending'', updatedAt := u\<rparr>"
    for r r' :: "'a merchant_scheme" and u
    using that by simp
  show ?thesis
    by (rule list_all2_mono [OF expired_loop_rows])
      (auto simp: swept_def dest: frame split: if_splits)
qed



section \<open>The two storage backends\<close>

text \<open>
  C10. On a table with no merchant to sweep (both windows end after the clock reading)
  the SQLite backend returns 0 and the PostgreSQL backend throws the TypeError, so the two
  do not agree even there; on a table with a merchant to sweep the PostgreSQL backend
  leaves it active.
\<close>

theorem storage_backends_never_agree:
  "filter (expired_where 1789000000000) two_merchants = []
   \<and> storage_processExpiredAccess False (clock_from 1789000000000) two_merchants
       = (Inr 0, two_merchants)
   \<and> storage_processExpiredAccess True (clock_from 1789000000000) two_merchants
       = (Inl TypeError, two_merchants)
   \<and> storage_processExpiredAccess True (clock_from 1791000000000) two_merchants
       = (Inl TypeError, two_merchants)"
  by (simp add: storage_processExpiredAccess_def SQLite_processExpiredAccess_def
        processExpiredAccess_throws)
     (simp add: expired_where_def two_merchants_def active_merchant_def new_merchant_def)

section \<open>Live access\<close>

lemma activeAccess_filter_iff:
  "activeAccess_filter now r \<longleftrightarrow>
      status r = ''active''
      \<and> (accessEndDate r = None \<or> (\<exists>e. accessEndDate r = Some e \<and> now < e))"
  by (simp add: activeAccess_filter_def split: option.split)

text \<open>
  C4. The filter of \<open>getMerchantsAccessStatus\<close> that counts live access holds of a
  merchant exactly when its \<open>status\<close> is active and its end date is NULL or after now.
  At the boundary, an end date equal to now, the merchant is not counted as live. The
  count \<open>activeAccess\<close> is the number of the merchants of which it holds.
\<close>

theorem activeAccess_live_iff:
  "(activeAccess_filter now m \<longleftrightarrow>
      status m = ''active''
      \<and> (accessEndDate m = None \<or> (\<exists>e. accessEndDate m = Some e \<and> now < e)))
   \<and> (accessEndDate m = Some now \<longrightarrow> \<not> activeAccess_filter now m)
   \<and> activeAccess (getMerchantsAccessStatus now allMerchants) =
       length (filter (\<lambda>r. status r = ''active''
                  \<and> (accessEndDate r = None \<or> (\<exists>e. accessEndDate r = Some e \<and> now < e)))
               allMerchants)"
proof -
  have boundary: "accessEndDate m = Some now \<longrightarrow> \<not> activeAccess_filter now m"
    by (simp add: activeAccess_filter_def)
  have count: "activeAccess (getMerchantsAccessStatus now allMerchants) =
       length (filter (activeAccess_filter now) allMerchants)"
    by (simp add: getMerchantsAccessStatus_def)
  have eq: "filter (activeAccess_filter now) allMerchants =
      filter (\<lambda>r. status r = ''active''
         \<and> (accessEndDate r = None \<or> (\<exists>e. accessEndDate r = Some e \<and> now < e))) allMerchants"
    by (rule filter_cong) (rule refl, rule activeAccess_filter_iff)
  from activeAccess_filter_iff [of now m] boundary count [unfolded eq]
  show ?thesis by (intro conjI)
qed

theorem activeAccess_live_iff_witness:
  "accessEndDate active_merchant = Some 1790864000000
   \<and> \<not> activeAccess_filter 1790864000000 active_merchant
   \<and> activeAccess_filter t2026 active_merchant
   \<and> activeAccess (getMerchantsAccessStatus 1790864000000 two_merchants) = 1"
  using activeAccess_live_iff [of 1790864000000 active_merchant two_merchants]
    activeAccess_live_iff [of t2026 active_merchant two_merchants]
  by (simp add: two_merchants_def active_merchant_def new_merchant_def t2026_def)

section \<open>The order of the access window\<close>

lemma rows0_select_Some:
  "rows0 (db_select_id k tbl) = Some m \<Longrightarrow> m \<in> set tbl \<and> mid m = k"
  by (induction tbl) (auto simp: rows0_def db_select_id_def split: if_splits)

lemma window_ok_db_update:
  assumes "\<forall>r \<in> set tbl. window_ok r"
    and "\<And>r. window_ok r \<Longrightarrow> window_ok (f r)"
  shows "\<forall>r \<in> set (db_update f k tbl). window_ok r"
  using assms by (auto simp: db_update_def)

lemma window_ok_grant:
  assumes "\<forall>r \<in> set tbl. window_ok r" and "0 < d" and "zone_ok z"
  shows "\<forall>r \<in> set (snd (grantMerchantAccess z now k d fee tbl)). window_ok r"
proof (cases "grant_params_ok now (addDays z now d) d (addDays z (addDays z now d) d) fee")
  case True
  have "now \<le> addDays z now d"
    using assms(2,3) by (simp add: addDays_not_before)
  then have "window_ok (grant_updates now (addDays z now d) d p fee r)"
    for p and r :: "'a merchant_scheme"
    by (cases fee) (simp_all add: grant_updates_def window_ok_def)
  with assms(1) have "\<forall>r \<in> set (db_update (grant_updates now (addDays z now d) d
      (addDays z (addDays z now d) d) fee) k tbl). window_ok r"
    by (rule window_ok_db_update)
  then show ?thesis
    by (simp add: grantMerchantAccess_accepted [OF True])
next
  case False
  with grantMerchantAccess_refused [OF False, of k tbl] assms(1) show ?thesis by simp
qed

lemma window_ok_suspend:
  assumes "\<forall>r \<in> set tbl. window_ok r"
  shows "\<forall>r \<in> set (snd (suspendMerchantAccess now k tbl)). window_ok r"
proof -
  have same: "window_ok (r\<lparr>status := ''payment_pending'', updatedAt := now\<rparr>) = window_ok r"
    for r :: "'a merchant_scheme"
    by (simp add: window_ok_def split: option.split)
  from assms have "\<forall>r \<in> set (db_update
      (\<lambda>r. r\<lparr>status := ''payment_pending'', updatedAt := now\<rparr>) k tbl). window_ok r"
    by (rule window_ok_db_update) (simp add: same)
  then show ?thesis
    by (simp add: suspendMerchantAccess_def Let_def)
qed

lemma window_ok_renew:
  assumes ok: "\<forall>r \<in> set tbl. window_ok r"
    and dur: "\<forall>m n. getMerchant k tbl = Some m \<and> accessDurationDays m = Some n \<longrightarrow> 0 \<le> n"
    and start: "\<forall>m s. getMerchant k tbl = Some m \<and> accessEndDate m = None
                  \<and> accessStartDate m = Some s \<longrightarrow> s \<le> now"
    and zone: "zone_ok z"
  shows "\<forall>r \<in> set (snd (renewMerchantAccess z now k tbl)). window_ok r"
proof -
  from renewMerchantAccess_table [of z now k tbl] show ?thesis
  proof
    assume "snd (renewMerchantAccess z now k tbl) = tbl"
    with ok show ?thesis by simp
  next
    assume "\<exists>m. rows0 (db_select_id k tbl) = Some m
         \<and> pg_timestamp_ok (addDays z (renew_baseDate now m) (renew_duration m))
         \<and> snd (renewMerchantAccess z now k tbl) =
             db_update (renew_updates now m (addDays z (renew_baseDate now m) (renew_duration m))
                   (addDays z (addDays z (renew_baseDate now m) (renew_duration m))
                      (renew_duration m))) k tbl"
    then obtain m where sel: "rows0 (db_select_id k tbl) = Some m"
      and res: "snd (renewMerchantAccess z now k tbl) =
             db_update (renew_updates now m (addDays z (renew_baseDate now m) (renew_duration m))
                   (addDays z (addDays z (renew_baseDate now m) (renew_duration m))
                      (renew_duration m))) k tbl"
      by blast
    let ?b = "renew_baseDate now m" and ?d = "renew_duration m"
    have m: "m \<in> set tbl" using sel by (simp add: rows0_select_Some)
    have gm: "getMerchant k tbl = Some m" using sel by (simp add: getMerchant_def)
    have "1 \<le> ?d"
      using dur gm by (auto simp: renew_duration_def split: option.split)
    with zone have b_le: "?b \<le> addDays z ?b ?d"
      by (simp add: addDays_not_before)
    have base_now: "now \<le> ?b"
      by (simp add: renew_baseDate_def Let_def)
    have base_end: "e \<le> ?b" if "accessEndDate m = Some e" for e
      using that by (simp add: renew_baseDate_def Let_def)
    have s_le: "s \<le> ?b" if s: "accessStartDate m = Some s" for s
    proof (cases "accessEndDate m")
      case None
      with start gm s have "s \<le> now" by blast
      with base_now show ?thesis by simp
    next
      case (Some e)
      have "window_ok m" using ok m by blast
      with s Some have "s \<le> e" by (simp add: window_ok_def)
      with base_end [OF Some] show ?thesis by simp
    qed
    have "window_ok (renew_updates now m (addDays z ?b ?d) p r)"
      for p and r :: "'a merchant_scheme"
    proof (cases "accessStartDate m")
      case None
      with base_now b_le show ?thesis
        by (simp add: renew_updates_def window_ok_def)
    next
      case (Some s)
      with s_le [OF Some] b_le show ?thesis
        by (simp add: renew_updates_def window_ok_def)
    qed
    with ok have "\<forall>r \<in> set (db_update (renew_updates now m (addDays z ?b ?d)
                  (addDays z (addDays z ?b ?d) ?d)) k tbl). window_ok r"
      by (rule window_ok_db_update)
    then show ?thesis
      by (simp add: res)
  qed
qed

lemma window_ok_settings:
  assumes "\<forall>r \<in> set tbl. window_ok r"
    and "set_accessStartDate s = None" and "set_accessEndDate s = None"
  shows "\<forall>r \<in> set (snd (updateMerchantAccessSettings now k s tbl)). window_ok r"
proof -
  have same: "window_ok (settings_updates now s r) = window_ok r" for r :: "'a merchant_scheme"
    using assms(2,3)
    by (simp add: settings_updates_def window_ok_def given_def split: option.split)
  from assms(1) have "\<forall>r \<in> set (db_update (settings_updates now s) k tbl). window_ok r"
    by (rule window_ok_db_update) (simp add: same)
  then show ?thesis
    by (simp add: updateMerchantAccessSettings_def Let_def)
qed

text \<open>
  C5. On a table whose rows all have the window in order (the end date, when present, not
  before the start date), the window stays in order after \<open>grantMerchantAccess\<close> with a
  positive duration, after \<open>suspendMerchantAccess\<close> and after \<open>processExpiredAccess\<close>;
  after \<open>renewMerchantAccess\<close> when the stored duration of the merchant is not negative
  and the merchant has an end date or no start date after now; and after
  \<open>updateMerchantAccessSettings\<close> when the settings give neither date. For the two
  operations that add calendar days this is in every zone whose offset never changes by
  more than a day.
\<close>

theorem window_ok_preserved:
  assumes "\<forall>r \<in> set tbl. window_ok r"
  shows "(0 < d \<and> zone_ok z
           \<longrightarrow> (\<forall>r \<in> set (snd (grantMerchantAccess z now k d fee tbl)). window_ok r))
       \<and> (\<forall>r \<in> set (snd (suspendMerchantAccess now k tbl)). window_ok r)
       \<and> (\<forall>r \<in> set (snd (processExpiredAccess clk tbl)). window_ok r)
       \<and> ((\<forall>m n. getMerchant k tbl = Some m \<and> accessDurationDays m = Some n \<longrightarrow> 0 \<le> n)
           \<and> (\<forall>m s. getMerchant k tbl = Some m \<and> accessEndDate m = None
                  \<and> accessStartDate m = Some s \<longrightarrow> s \<le> now)
           \<and> zone_ok z
           \<longrightarrow> (\<forall>r \<in> set (snd (renewMerchantAccess z now k tbl)). window_ok r))
       \<and> (set_accessStartDate s = None \<and> set_accessEndDate s = None
           \<longrightarrow> (\<forall>r \<in> set (snd (updateMerchantAccessSettings now k s tbl)). window_ok r))"
proof -
  have sweep: "\<forall>r \<in> set (snd (processExpiredAccess clk tbl)). window_ok r"
    using assms by (simp add: processExpiredAccess_throws)
  show ?thesis
  proof (intro conjI impI)
    assume "0 < d \<and> zone_ok z"
    then have "0 < d" and "zone_ok z" by simp_all
    with assms show "\<forall>r \<in> set (snd (grantMerchantAccess z now k d fee tbl)). window_ok r"
      by (rule window_ok_grant)
  next
    from assms show "\<forall>r \<in> set (snd (suspendMerchantAccess now k tbl)). window_ok r"
      by (rule window_ok_suspend)
  next
    from sweep show "\<forall>r \<in> set (snd (processExpiredAccess clk tbl)). window_ok r" .
  next
    assume "(\<forall>m n. getMerchant k tbl = Some m \<and> accessDurationDays m = Some n \<longrightarrow> 0 \<le> n)
           \<and> (\<forall>m s. getMerchant k tbl = Some m \<and> accessEndDate m = None
                  \<and> accessStartDate m = Some s \<longrightarrow> s \<le> now)
           \<and> zone_ok z"
    then show "\<forall>r \<in> set (snd (renewMerchantAccess z now k tbl)). window_ok r"
      using window_ok_renew [OF assms] by blast
  next
    assume "set_accessStartDate s = None \<and> set_accessEndDate s = None"
    then show "\<forall>r \<in> set (snd (updateMerchantAccessSettings now k s tbl)). window_ok r"
      using window_ok_settings [OF assms] by blast
  qed
qed

theorem window_ok_preserved_witness:
  "list_all window_ok two_merchants
   \<and> zone_ok utc_zone
   \<and> list_all window_ok (snd (grantMerchantAccess utc_zone t2026 ''m1'' 10 None two_merchants))
   \<and> list_all window_ok (snd (suspendMerchantAccess t2026 ''m1'' two_merchants))
   \<and> list_all window_ok (snd (processExpiredAccess (clock_from 1791000000000) two_merchants))
   \<and> list_all window_ok (snd (renewMerchantAccess utc_zone t2026 ''m1'' two_merchants))
   \<and> list_all window_ok (snd (updateMerchantAccessSettings t2026 ''m1'' fee_only two_merchants))"
proof -
  have h: "\<forall>r \<in> set two_merchants. window_ok r"
    by (simp add: two_merchants_def active_merchant_def new_merchant_def window_ok_def)
  have g: "getMerchant ''m1'' two_merchants = Some active_merchant"
    by (simp add: getMerchant_def db_select_id_def rows0_def two_merchants_def
        active_merchant_def new_merchant_def)
  have p: "(0::int) < 10" by simp
  have z: "zone_ok utc_zone"
    using fixed_offset_utc_zone by (rule zone_ok_fixed_offset)
  have d: "\<forall>m n. getMerchant ''m1'' two_merchants = Some m \<and> accessDurationDays m = Some n
             \<longrightarrow> 0 \<le> n"
    unfolding g by (simp add: active_merchant_def new_merchant_def)
  have s: "\<forall>m s. getMerchant ''m1'' two_merchants = Some m \<and> accessEndDate m = None
                  \<and> accessStartDate m = Some s \<longrightarrow> s \<le> t2026"
    unfolding g by (simp add: active_merchant_def new_merchant_def)
  have f: "set_accessStartDate fee_only = None \<and> set_accessEndDate fee_only = None"
    by (simp add: fee_only_def)
  note w = window_ok_preserved [OF h, where d = 10 and z = utc_zone and now = t2026
      and k = "''m1''" and fee = None and clk = "clock_from 1791000000000" and s = fee_only]
  from w h p z d s f show ?thesis
    unfolding list_all_iff by blast
qed

text \<open>
  As stated for every update of the access settings, C5 fails: the settings are written as
  they come, and an end date before the start date is stored.
\<close>

theorem window_ok_counterexample:
  "list_all window_ok [active_merchant]
   \<and> map window_ok (snd (updateMerchantAccessSettings t2026 ''m1'' end_before_start
                           [active_merchant])) = [False]"
  by (simp add: updateMerchantAccessSettings_def settings_updates_def given_def db_update_def
      window_ok_def end_before_start_def active_merchant_def new_merchant_def Let_def)

section \<open>The payment status check\<close>

text \<open>
  What holds of the polling: a status other than the three final ones, and an error, leave
  the interval set and only count the request; a final status clears the interval; a
  cleared interval sends no more requests; and after the timeout the interval is cleared,
  with at most 600 requests sent.
\<close>

lemma interval_callback_pending:
  assumes "result \<noteq> Reply ''approved''" and "result \<noteq> Reply ''rejected''"
    and "result \<noteq> Reply ''cancelled''"
  shows "interval_callback result st = st\<lparr>requests := Suc (requests st)\<rparr>"
  using assms by (cases result) (simp_all add: interval_callback_def Let_def)

lemma interval_callback_terminal:
  assumes "result = Reply ''approved'' \<or> result = Reply ''rejected'' \<or> result = Reply ''cancelled''"
  shows "\<not> checkInterval_set (interval_callback result st)"
  using assms by (auto simp: interval_callback_def Let_def)

lemma interval_callback_Throws:
  "interval_callback Throws st = st\<lparr>requests := Suc (requests st)\<rparr>"
  by (simp add: interval_callback_def)

lemma interval_ticks_cleared:
  "\<not> checkInterval_set st \<Longrightarrow> interval_ticks gateway k n st = st"
  by (cases n) simp_all

lemma interval_ticks_pending:
  assumes "\<And>j. gateway j \<noteq> Reply ''approved'' \<and> gateway j \<noteq> Reply ''rejected''
              \<and> gateway j \<noteq> Reply ''cancelled''"
    and "checkInterval_set st"
  shows "interval_ticks gateway k n st = st\<lparr>requests := requests st + n\<rparr>"
  using assms(2)
proof (induction n arbitrary: k st)
  case 0
  then show ?case by simp
next
  case (Suc n)
  have cb: "interval_callback (gateway k) st = st\<lparr>requests := Suc (requests st)\<rparr>"
    using assms(1) [of k] by (simp add: interval_callback_pending)
  have "checkInterval_set (st\<lparr>requests := Suc (requests st)\<rparr>)"
    using Suc.prems by simp
  then have "interval_ticks gateway (Suc k) n (st\<lparr>requests := Suc (requests st)\<rparr>)
      = st\<lparr>requests := Suc (requests st)\<rparr>
          \<lparr>requests := requests (st\<lparr>requests := Suc (requests st)\<rparr>) + n\<rparr>"
    by (rule Suc.IH)
  then show ?case
    using Suc.prems by (simp add: cb)
qed

lemma interval_ticks_requests:
  "requests (interval_ticks gateway k n st) \<le> requests st + n"
proof (induction n arbitrary: k st)
  case 0
  show ?case by simp
next
  case (Suc n)
  have "requests (interval_callback r st) = Suc (requests st)" for r
    by (cases r) (simp_all add: interval_callback_def Let_def)
  then show ?case
    using Suc.IH [of "Suc k" "interval_callback (gateway k) st"] by simp
qed

lemma startPaymentStatusCheck_stops:
  "\<not> checkInterval_set (startPaymentStatusCheck c gateway st)
   \<and> requests (startPaymentStatusCheck c gateway st) \<le> requests st + 600"
proof -
  have "requests (interval_ticks gateway 1 600 (st\<lparr>checkInterval_set := True\<rparr>))
      \<le> requests (st\<lparr>checkInterval_set := True\<rparr>) + 600"
    by (rule interval_ticks_requests)
  then show ?thesis
    by (simp add: startPaymentStatusCheck_def timeout_callback_def Let_def
        ceiling_ms_def interval_ms_def)
qed

text \<open>
  C9. The form is in its initial state, the charge is created, and the gateway answers
  \<open>pending\<close> to every request. After the timeout the interval is cleared and 600
  requests were sent, but \<open>paymentStatus\<close> is still \<open>processing\<close>: the timeout
  tests the \<open>paymentStatus\<close> of its closure, which is \<open>pending\<close>, so it neither sets
  \<open>failed\<close> nor shows the toast, and the retry button is not rendered.
\<close>

theorem createPixPayment_timeout_no_retry:
  "createPixPayment True always_pending initial_form =
     \<lparr> ui_paymentStatus = Processing, checkInterval_set = False, toasts = [],
       signup_scheduled = False, requests = 600 \<rparr>
   \<and> \<not> retry_presented (createPixPayment True always_pending initial_form)"
proof -
  have np: "always_pending j \<noteq> Reply ''approved'' \<and> always_pending j \<noteq> Reply ''rejected''
              \<and> always_pending j \<noteq> Reply ''cancelled''" for j
    by (simp add: always_pending_def)
  have ticks: "interval_ticks always_pending k 600 st = st\<lparr>requests := requests st + 600\<rparr>"
    if "checkInterval_set st" for k st
    using np that by (rule interval_ticks_pending)
  have "createPixPayment True always_pending initial_form =
     \<lparr> ui_paymentStatus = Processing, checkInterval_set = False, toasts = [],
       signup_scheduled = False, requests = 600 \<rparr>"
    by (simp add: createPixPayment_def startPaymentStatusCheck_def timeout_callback_def
        initial_form_def ceiling_ms_def interval_ms_def ticks Let_def)
  then show ?thesis
    by (simp add: retry_presented_def)
qed

end
